theory Spec2Isabelle
  imports Main
begin

section \<open>The authentication context (src/contexts/AuthContext.tsx)\<close>

text \<open>
  The component keeps four state cells (\<open>user\<close>, \<open>session\<close>, \<open>isLoading\<close>,
  \<open>isPremium\<close>) and changes them only through their setters. Every piece of code that
  runs without suspending (the part of an async function between two \<open>await\<close>s, a timer
  callback) is modelled as a function returning the list of effects it issues, in source
  order: setter calls, console lines and toasts. What the external services answer is an
  input of the model.
\<close>

subsection \<open>Data\<close>

record User =
  user_id :: string
  email :: string

text \<open>The handlers test \<open>currentSession?.user\<close>, so the user of a session is optional here.\<close>

record Session =
  access_token :: string
  session_user :: "User option"

record AuthState =
  user :: "User option"
  session :: "Session option"
  isLoading :: bool
  isPremium :: bool

text \<open>The four \<open>useState\<close> initial values.\<close>

definition initial_state :: AuthState where
  "initial_state = \<lparr>user = None, session = None, isLoading = True, isPremium = False\<rparr>"

datatype provider_error = ProviderError (message: string)

text \<open>An awaited call either resolves with a value or rejects (throws at the \<open>await\<close>).\<close>

datatype 'a settled = Resolved 'a | Rejected provider_error

text \<open>The object the identity provider resolves with; the code reads its \<open>error\<close> field.\<close>

record auth_response =
  error :: "provider_error option"

text \<open>The row selected from \<open>subscriptions\<close>; \<open>data\<close> is null when there is no row.\<close>

record subscription_row =
  is_premium :: "bool option"

datatype toast_variant = Default | Destructive

record toast =
  title :: string
  description :: string
  variant :: toast_variant

datatype setter_call =
    SetUser "User option"
  | SetSession "Session option"
  | SetIsLoading bool
  | SetIsPremium bool

datatype effect = Write setter_call | Console string | Notify toast

fun apply_write :: "setter_call \<Rightarrow> AuthState \<Rightarrow> AuthState" where
  "apply_write (SetUser u) st = st\<lparr>user := u\<rparr>"
| "apply_write (SetSession s) st = st\<lparr>session := s\<rparr>"
| "apply_write (SetIsLoading b) st = st\<lparr>isLoading := b\<rparr>"
| "apply_write (SetIsPremium b) st = st\<lparr>isPremium := b\<rparr>"

fun writes_of :: "effect list \<Rightarrow> setter_call list" where
  "writes_of [] = []"
| "writes_of (Write w # es) = w # writes_of es"
| "writes_of (Console _ # es) = writes_of es"
| "writes_of (Notify _ # es) = writes_of es"

fun toasts_of :: "effect list \<Rightarrow> toast list" where
  "toasts_of [] = []"
| "toasts_of (Notify t # es) = t # toasts_of es"
| "toasts_of (Write _ # es) = toasts_of es"
| "toasts_of (Console _ # es) = toasts_of es"

fun consoles_of :: "effect list \<Rightarrow> string list" where
  "consoles_of [] = []"
| "consoles_of (Console c # es) = c # consoles_of es"
| "consoles_of (Write _ # es) = consoles_of es"
| "consoles_of (Notify _ # es) = consoles_of es"

text \<open>
  Each cell has its own setter, so one run changes the state one call at a time.
  \<open>commit\<close> is the state after all the setter calls of a run, applied in order;
  \<open>write_trace\<close> lists the state after each single call. Whether a consumer is rendered
  with a state between two calls of one run is decided by how the application's root
  schedules renders, outside this file.
\<close>

definition commit :: "setter_call list \<Rightarrow> AuthState \<Rightarrow> AuthState" where
  "commit ws st = fold apply_write ws st"

fun write_trace :: "setter_call list \<Rightarrow> AuthState \<Rightarrow> AuthState list" where
  "write_trace [] st = []"
| "write_trace (w # ws) st = apply_write w st # write_trace ws (apply_write w st)"

subsection \<open>The mount effect: fetchPremiumStatus, checkSession, the auth listener\<close>

text \<open>\<open>currentSession?.user\<close>\<close>

definition optional_user :: "Session option \<Rightarrow> User option" where
  "optional_user currentSession =
     (case currentSession of None \<Rightarrow> None | Some s \<Rightarrow> session_user s)"

text \<open>\<open>data?.is_premium || false\<close>\<close>

definition premium_flag :: "subscription_row option \<Rightarrow> bool" where
  "premium_flag data =
     (case data of
        None \<Rightarrow> False
      | Some row \<Rightarrow> (case is_premium row of None \<Rightarrow> False | Some b \<Rightarrow> b))"

text \<open>
  \<open>fetchPremiumStatus\<close> after its query has settled. The second component is how the
  async function itself ends: \<open>Inr ()\<close> when it returns, \<open>Inl e\<close> when it throws.
\<close>

fun fetchPremiumStatus_settled ::
  "bool \<Rightarrow> subscription_row option settled \<Rightarrow> effect list \<times> (provider_error + unit)" where
  "fetchPremiumStatus_settled mounted (Resolved data) =
     (if mounted then [Write (SetIsPremium (premium_flag data))] else [], Inr ())"
| "fetchPremiumStatus_settled mounted (Rejected e) =
     ([Console ''Error fetching subscription data:''], Inr ())"

text \<open>The \<open>finally\<close> block of \<open>checkSession\<close>.\<close>

definition checkSession_finally :: "bool \<Rightarrow> effect list" where
  "checkSession_finally mounted = (if mounted then [Write (SetIsLoading False)] else [])"

text \<open>
  \<open>checkSession\<close> after \<open>getSession\<close> has settled. The second component is the user id
  passed to \<open>fetchPremiumStatus\<close> when the function suspends again on that call, and
  \<open>None\<close> when it has run to its end.
\<close>

fun checkSession_settled ::
  "bool \<Rightarrow> Session option settled \<Rightarrow> effect list \<times> string option" where
  "checkSession_settled mounted (Rejected e) =
     (Console ''Error getting session:'' # checkSession_finally mounted, None)"
| "checkSession_settled mounted (Resolved currentSession) =
     (if \<not> mounted then (checkSession_finally mounted, None)
      else
        (case optional_user currentSession of
           Some u \<Rightarrow>
             ([Write (SetSession currentSession), Write (SetUser (Some u))], Some (user_id u))
         | None \<Rightarrow> (checkSession_finally mounted, None)))"

text \<open>\<open>checkSession\<close> after the awaited \<open>fetchPremiumStatus\<close> has finished.\<close>

definition checkSession_resumed ::
  "bool \<Rightarrow> subscription_row option settled \<Rightarrow> effect list" where
  "checkSession_resumed mounted out =
     (case fetchPremiumStatus_settled mounted out of
        (effs, Inr _) \<Rightarrow> effs @ checkSession_finally mounted
      | (effs, Inl e) \<Rightarrow>
          effs @ Console ''Error getting session:'' # checkSession_finally mounted)"

text \<open>The callback given to \<open>onAuthStateChange\<close>, up to its end or its \<open>await\<close>.\<close>

definition onAuthStateChange_handler ::
  "bool \<Rightarrow> string \<Rightarrow> Session option \<Rightarrow> effect list \<times> string option" where
  "onAuthStateChange_handler mounted event currentSession =
     (if \<not> mounted then ([Console ''Auth state changed:''], None)
      else
        (case optional_user currentSession of
           Some u \<Rightarrow>
             ([Console ''Auth state changed:'',
               Write (SetSession currentSession), Write (SetUser (Some u))],
              Some (user_id u))
         | None \<Rightarrow>
             ([Console ''Auth state changed:'',
               Write (SetSession None), Write (SetUser None), Write (SetIsPremium False)]
              @ (if mounted then [Write (SetIsLoading False)] else []),
              None)))"

text \<open>The callback after the awaited \<open>fetchPremiumStatus\<close> has finished.\<close>

definition onAuthStateChange_resumed ::
  "bool \<Rightarrow> subscription_row option settled \<Rightarrow> effect list" where
  "onAuthStateChange_resumed mounted out =
     (case fetchPremiumStatus_settled mounted out of
        (effs, Inr _) \<Rightarrow> effs @ (if mounted then [Write (SetIsLoading False)] else [])
      | (effs, Inl e) \<Rightarrow> effs)"

subsection \<open>The safety timeout\<close>

definition loadingTimeout :: "effect list" where
  "loadingTimeout =
     [Console ''Auth loading safety timeout triggered'',
      Write (SetIsLoading False), Write (SetUser None), Write (SetSession None)]"

subsection \<open>signIn, signUp, signOut\<close>

text \<open>
  Each operation calls \<open>setIsLoading(true)\<close>, then awaits the identity provider. What the
  provider answers is an argument. After the answer, the rest of the \<open>try\<close> body yields
  the effects issued before it ends and whether it ended by a \<open>throw\<close>; the \<open>catch\<close>
  and \<open>finally\<close> blocks follow. The result is \<open>Inl e\<close> when the promise returned
  by the operation rejects with \<open>e\<close>, and \<open>Inr ()\<close> when it resolves.
\<close>

definition operation_start :: "effect list" where
  "operation_start = [Write (SetIsLoading True)]"

definition signIn_try ::
  "auth_response settled \<Rightarrow> effect list \<times> (provider_error + unit)" where
  "signIn_try out =
     (case out of
        Rejected e \<Rightarrow> ([], Inl e)
      | Resolved r \<Rightarrow>
          (case error r of
             Some e \<Rightarrow> ([], Inl e)
           | None \<Rightarrow>
               ([Notify \<lparr>title = ''Welcome back!'',
                         description = ''You've successfully signed in.'',
                         variant = Default\<rparr>],
                Inr ())))"

definition signIn_settled ::
  "auth_response settled \<Rightarrow> effect list \<times> (provider_error + unit)" where
  "signIn_settled out =
     (case signIn_try out of
        (effs, Inl e) \<Rightarrow>
          (effs @ [Notify \<lparr>title = ''Sign in failed'', description = message e,
                           variant = Destructive\<rparr>,
                   Write (SetIsLoading False)],
           Inl e)
      | (effs, Inr u) \<Rightarrow> (effs @ [Write (SetIsLoading False)], Inr u))"

definition signIn ::
  "string \<Rightarrow> string \<Rightarrow> auth_response settled \<Rightarrow> effect list \<times> (provider_error + unit)" where
  "signIn email' password out =
     (operation_start @ fst (signIn_settled out), snd (signIn_settled out))"

definition signUp_try ::
  "auth_response settled \<Rightarrow> effect list \<times> (provider_error + unit)" where
  "signUp_try out =
     (case out of
        Rejected e \<Rightarrow> ([], Inl e)
      | Resolved r \<Rightarrow>
          (case error r of
             Some e \<Rightarrow> ([], Inl e)
           | None \<Rightarrow>
               ([Notify \<lparr>title = ''Account created!'',
                         description = ''You've successfully signed up. Welcome!'',
                         variant = Default\<rparr>],
                Inr ())))"

definition signUp_settled ::
  "auth_response settled \<Rightarrow> effect list \<times> (provider_error + unit)" where
  "signUp_settled out =
     (case signUp_try out of
        (effs, Inl e) \<Rightarrow>
          (effs @ [Notify \<lparr>title = ''Sign up failed'', description = message e,
                           variant = Destructive\<rparr>,
                   Write (SetIsLoading False)],
           Inl e)
      | (effs, Inr u) \<Rightarrow> (effs @ [Write (SetIsLoading False)], Inr u))"

definition signUp ::
  "string \<Rightarrow> string \<Rightarrow> string \<Rightarrow> auth_response settled
     \<Rightarrow> effect list \<times> (provider_error + unit)" where
  "signUp email' password username out =
     (operation_start @ fst (signUp_settled out), snd (signUp_settled out))"

text \<open>
  \<open>signOut\<close> awaits the provider and drops the value it resolves with: only a rejected
  call reaches the \<open>catch\<close> block, which does not throw again.
\<close>

definition signOut_try ::
  "auth_response settled \<Rightarrow> effect list \<times> (provider_error + unit)" where
  "signOut_try out =
     (case out of
        Rejected e \<Rightarrow> ([], Inl e)
      | Resolved r \<Rightarrow>
          ([Notify \<lparr>title = ''Signed out'',
                    description = ''You've been successfully signed out.'',
                    variant = Default\<rparr>],
           Inr ()))"

definition signOut_settled ::
  "auth_response settled \<Rightarrow> effect list \<times> (provider_error + unit)" where
  "signOut_settled out =
     (case signOut_try out of
        (effs, Inl e) \<Rightarrow>
          (effs @ [Notify \<lparr>title = ''Sign out failed'', description = message e,
                           variant = Destructive\<rparr>,
                   Write (SetIsLoading False)],
           Inr ())
      | (effs, Inr u) \<Rightarrow> (effs @ [Write (SetIsLoading False)], Inr u))"

definition signOut ::
  "auth_response settled \<Rightarrow> effect list \<times> (provider_error + unit)" where
  "signOut out = (operation_start @ fst (signOut_settled out), snd (signOut_settled out))"

subsection \<open>useAuth\<close>

text \<open>
  The context is created with the default \<open>undefined\<close>; inside an \<open>AuthProvider\<close> it
  holds the value the provider renders with: the four state cells and the three
  operations.
\<close>

record AuthContextType =
  ctx_user :: "User option"
  ctx_session :: "Session option"
  ctx_isLoading :: bool
  ctx_signIn :: "string \<Rightarrow> string \<Rightarrow> auth_response settled
                   \<Rightarrow> effect list \<times> (provider_error + unit)"
  ctx_signUp :: "string \<Rightarrow> string \<Rightarrow> string \<Rightarrow> auth_response settled
                   \<Rightarrow> effect list \<times> (provider_error + unit)"
  ctx_signOut :: "auth_response settled \<Rightarrow> effect list \<times> (provider_error + unit)"
  ctx_isPremium :: bool

definition provider_value :: "AuthState \<Rightarrow> AuthContextType" where
  "provider_value st =
     \<lparr>ctx_user = user st, ctx_session = session st, ctx_isLoading = isLoading st,
      ctx_signIn = signIn, ctx_signUp = signUp, ctx_signOut = signOut,
      ctx_isPremium = isPremium st\<rparr>"

datatype scope = OutsideProvider | InsideProvider AuthState

text \<open>\<open>useContext(AuthContext)\<close>: \<open>None\<close> is \<open>undefined\<close>.\<close>

definition useContext :: "scope \<Rightarrow> AuthContextType option" where
  "useContext sc =
     (case sc of OutsideProvider \<Rightarrow> None | InsideProvider st \<Rightarrow> Some (provider_value st))"

datatype js_error = Error string

definition useAuth :: "scope \<Rightarrow> js_error + AuthContextType" where
  "useAuth sc =
     (case useContext sc of
        None \<Rightarrow> Inl (Error ''useAuth must be used within an AuthProvider'')
      | Some context \<Rightarrow> Inr context)"

subsection \<open>The component over time\<close>

text \<open>
  The mounted component together with what is in flight: the \<open>getSession\<close> call of
  \<open>checkSession\<close>, the entitlement queries (each with the function awaiting it and the
  user id asked for), the provider calls of the three operations, the subscription and the
  timer. The effect's cleanup sets \<open>mounted\<close> to false, unsubscribes and clears the
  timer. Setter calls reach the exposed state while the component is mounted; the ones
  issued after the cleanup are kept in \<open>late_writes\<close>.
\<close>

datatype awaiter = CheckSession | AuthListener

datatype operation = SignIn | SignUp | SignOut

record system =
  auth :: AuthState
  mounted :: bool
  subscribed :: bool
  timer_armed :: bool
  session_query :: bool
  fetches :: "(awaiter \<times> string) list"
  calls :: "operation list"
  emitted :: "effect list"
  late_writes :: "setter_call list"

definition mount :: system where
  "mount =
     \<lparr>auth = initial_state, mounted = True, subscribed = True, timer_armed = True,
      session_query = True, fetches = [], calls = [], emitted = [], late_writes = []\<rparr>"

definition deliver :: "effect list \<Rightarrow> system \<Rightarrow> system" where
  "deliver effs sys =
     sys\<lparr>auth := (if mounted sys then commit (writes_of effs) (auth sys) else auth sys),
         emitted := emitted sys @ effs,
         late_writes := late_writes sys @ (if mounted sys then [] else writes_of effs)\<rparr>"

definition start_fetch :: "awaiter \<Rightarrow> string option \<Rightarrow> system \<Rightarrow> system" where
  "start_fetch a pending sys =
     (case pending of
        None \<Rightarrow> sys
      | Some userId \<Rightarrow> sys\<lparr>fetches := fetches sys @ [(a, userId)]\<rparr>)"

definition remove_at :: "nat \<Rightarrow> 'a list \<Rightarrow> 'a list" where
  "remove_at i xs = take i xs @ drop (Suc i) xs"

datatype event =
    GetSessionSettled "Session option settled"
  | AuthStateChange string "Session option"
  | FetchSettled nat "subscription_row option settled"
  | TimeoutFired
  | Unmount
  | CallSignIn string string
  | CallSignUp string string string
  | CallSignOut
  | CallSettled nat "auth_response settled"

fun step :: "event \<Rightarrow> system \<Rightarrow> system" where
  "step (GetSessionSettled out) sys =
     (if session_query sys then
        (case checkSession_settled (mounted sys) out of
           (effs, pending) \<Rightarrow>
             start_fetch CheckSession pending (deliver effs (sys\<lparr>session_query := False\<rparr>)))
      else sys)"
| "step (AuthStateChange ev currentSession) sys =
     (if subscribed sys then
        (case onAuthStateChange_handler (mounted sys) ev currentSession of
           (effs, pending) \<Rightarrow> start_fetch AuthListener pending (deliver effs sys))
      else sys)"
| "step (FetchSettled i out) sys =
     (if i < length (fetches sys) then
        (case fst (fetches sys ! i) of
           CheckSession \<Rightarrow>
             deliver (checkSession_resumed (mounted sys) out)
               (sys\<lparr>fetches := remove_at i (fetches sys)\<rparr>)
         | AuthListener \<Rightarrow>
             deliver (onAuthStateChange_resumed (mounted sys) out)
               (sys\<lparr>fetches := remove_at i (fetches sys)\<rparr>))
      else sys)"
| "step TimeoutFired sys =
     (if timer_armed sys then deliver loadingTimeout (sys\<lparr>timer_armed := False\<rparr>)
      else sys)"
| "step Unmount sys = sys\<lparr>mounted := False, subscribed := False, timer_armed := False\<rparr>"
| "step (CallSignIn email' password) sys =
     deliver operation_start (sys\<lparr>calls := calls sys @ [SignIn]\<rparr>)"
| "step (CallSignUp email' password username) sys =
     deliver operation_start (sys\<lparr>calls := calls sys @ [SignUp]\<rparr>)"
| "step CallSignOut sys =
     deliver operation_start (sys\<lparr>calls := calls sys @ [SignOut]\<rparr>)"
| "step (CallSettled i out) sys =
     (if i < length (calls sys) then
        (case calls sys ! i of
           SignIn \<Rightarrow>
             deliver (fst (signIn_settled out)) (sys\<lparr>calls := remove_at i (calls sys)\<rparr>)
         | SignUp \<Rightarrow>
             deliver (fst (signUp_settled out)) (sys\<lparr>calls := remove_at i (calls sys)\<rparr>)
         | SignOut \<Rightarrow>
             deliver (fst (signOut_settled out)) (sys\<lparr>calls := remove_at i (calls sys)\<rparr>))
      else sys)"

definition run :: "event list \<Rightarrow> system" where
  "run evs = fold step evs mount"

text \<open>Events that start or finish one of the three operations.\<close>

fun is_operation_event :: "event \<Rightarrow> bool" where
  "is_operation_event (CallSignIn _ _) = True"
| "is_operation_event (CallSignUp _ _ _) = True"
| "is_operation_event CallSignOut = True"
| "is_operation_event (CallSettled _ _) = True"
| "is_operation_event _ = False"

text \<open>The two fields consumers must never see apart: both set or both null.\<close>

definition paired :: "AuthState \<Rightarrow> bool" where
  "paired st = ((user st = None) = (session st = None))"

text \<open>The three fields that say who is signed in and what they are entitled to.\<close>

definition same_identity :: "AuthState \<Rightarrow> AuthState \<Rightarrow> bool" where
  "same_identity st st' =
     (user st' = user st \<and> session st' = session st \<and> isPremium st' = isPremium st)"

text \<open>No setter call has been issued after teardown, and the timer is armed only while mounted.\<close>

definition quiet :: "system \<Rightarrow> bool" where
  "quiet sys = (late_writes sys = [] \<and> (timer_armed sys \<longrightarrow> mounted sys))"

text \<open>Sample values for the concrete runs below.\<close>

definition alice :: User where
  "alice = \<lparr>user_id = ''u1'', email = ''alice@example.org''\<rparr>"

definition alice_session :: Session where
  "alice_session = \<lparr>access_token = ''token-1'', session_user = Some alice\<rparr>"

definition premium_row :: subscription_row where
  "premium_row = \<lparr>is_premium = Some True\<rparr>"

section \<open>User and session go together\<close>

lemma optional_user_SomeD: "optional_user cs = Some u \<Longrightarrow> cs \<noteq> None"
  by (cases cs) (simp_all add: optional_user_def)


lemma paired_fetchPremiumStatus_settled:
  "paired (commit (writes_of (fst (fetchPremiumStatus_settled m out))) st) = paired st"
  by (cases out) (auto simp: paired_def commit_def)

lemma writes_of_append: "writes_of (xs @ ys) = writes_of xs @ writes_of ys"
  by (induction xs rule: writes_of.induct) simp_all

lemma commit_append: "commit (xs @ ys) st = commit ys (commit xs st)"
  by (simp add: commit_def)









lemma auth_start_fetch [simp]: "auth (start_fetch a p sys) = auth sys"
  by (simp add: start_fetch_def split: option.splits)

lemma auth_deliver:
  "auth (deliver effs sys) = (if mounted sys then commit (writes_of effs) (auth sys) else auth sys)"
  by (simp add: deliver_def)

lemma paired_deliver:
  "paired (auth sys) \<Longrightarrow> paired (commit (writes_of effs) (auth sys))
     \<Longrightarrow> paired (auth (deliver effs sys))"
  by (simp add: auth_deliver)



text \<open>The state after a run is the state after its last setter call.\<close>

lemma commit_last_write: "commit ws st = last (st # write_trace ws st)"
  by (induction ws arbitrary: st) (simp_all add: commit_def)


lemmas model_defs =
  run_def mount_def initial_state_def deliver_def start_fetch_def remove_at_def commit_def
  optional_user_def premium_flag_def checkSession_finally_def checkSession_resumed_def
  onAuthStateChange_handler_def onAuthStateChange_resumed_def loadingTimeout_def
  operation_start_def signIn_settled_def signIn_try_def signUp_settled_def signUp_try_def
  signOut_settled_def signOut_try_def


section \<open>The safety timeout\<close>

text \<open>
  C2. The timer callback sets \<open>isLoading\<close> to false and clears \<open>user\<close> and
  \<open>session\<close> without looking at them, although its comment says it does so only when
  there is still no user data. A change event signs a user in before the timer fires; after
  the timer fires, \<open>user\<close> and \<open>session\<close> are null again.
\<close>

theorem timeout_clears_authenticated_state:
  "user (auth (run [AuthStateChange ''SIGNED_IN'' (Some alice_session)])) = Some alice
   \<and> user (auth (run [AuthStateChange ''SIGNED_IN'' (Some alice_session), TimeoutFired])) = None
   \<and> session (auth (run [AuthStateChange ''SIGNED_IN'' (Some alice_session), TimeoutFired])) = None"
  by (simp add: model_defs alice_def alice_session_def premium_row_def)

text \<open>
  C3. The change-event handler resets \<open>isPremium\<close> when it clears the user; the timer
  callback clears the user and leaves \<open>isPremium\<close> as it is. A premium user signs in,
  the entitlement query answers true, the timer fires: \<open>user\<close> is null and
  \<open>isPremium\<close> is still true.
\<close>

theorem timeout_leaves_premium_set:
  "user (auth (run [AuthStateChange ''SIGNED_IN'' (Some alice_session),
                    FetchSettled 0 (Resolved (Some premium_row)),
                    TimeoutFired])) = None
   \<and> isPremium (auth (run [AuthStateChange ''SIGNED_IN'' (Some alice_session),
                    FetchSettled 0 (Resolved (Some premium_row)),
                    TimeoutFired])) = True"
  by (simp add: model_defs alice_def alice_session_def premium_row_def)

text \<open>
  The same state is reached without the timer when an entitlement query started for a
  signed-in user answers after the sign-out event.
\<close>

lemma late_fetch_sets_premium_after_sign_out:
  "user (auth (run [AuthStateChange ''SIGNED_IN'' (Some alice_session),
                    AuthStateChange ''SIGNED_OUT'' None,
                    FetchSettled 0 (Resolved (Some premium_row))])) = None
   \<and> isPremium (auth (run [AuthStateChange ''SIGNED_IN'' (Some alice_session),
                    AuthStateChange ''SIGNED_OUT'' None,
                    FetchSettled 0 (Resolved (Some premium_row))])) = True"
  by (simp add: model_defs alice_def alice_session_def premium_row_def)

section \<open>The operations\<close>

text \<open>
  C4. When the identity provider reports an error to \<open>signIn\<close>, in the resolved value or
  by rejecting, the only toast is the destructive one carrying the provider's message, the
  returned promise rejects with that error, and \<open>isLoading\<close> is false afterwards. When
  the provider reports none, the only toast is the welcome one, the promise resolves, and
  \<open>isLoading\<close> is false afterwards.
\<close>

theorem signIn_contract:
  "snd (signIn em pw (Resolved \<lparr>error = Some e\<rparr>)) = Inl e
   \<and> toasts_of (fst (signIn em pw (Resolved \<lparr>error = Some e\<rparr>)))
       = [\<lparr>title = ''Sign in failed'', description = message e, variant = Destructive\<rparr>]
   \<and> isLoading (commit (writes_of (fst (signIn em pw (Resolved \<lparr>error = Some e\<rparr>)))) st) = False
   \<and> snd (signIn em pw (Rejected e)) = Inl e
   \<and> toasts_of (fst (signIn em pw (Rejected e)))
       = [\<lparr>title = ''Sign in failed'', description = message e, variant = Destructive\<rparr>]
   \<and> isLoading (commit (writes_of (fst (signIn em pw (Rejected e)))) st) = False
   \<and> snd (signIn em pw (Resolved \<lparr>error = None\<rparr>)) = Inr ()
   \<and> toasts_of (fst (signIn em pw (Resolved \<lparr>error = None\<rparr>)))
       = [\<lparr>title = ''Welcome back!'', description = ''You've successfully signed in.'',
           variant = Default\<rparr>]
   \<and> isLoading (commit (writes_of (fst (signIn em pw (Resolved \<lparr>error = None\<rparr>)))) st) = False"
  by (simp add: signIn_def signIn_settled_def signIn_try_def operation_start_def commit_def)

text \<open>
  C5. \<open>signOut\<close> does not read the value the provider resolves with. When that value
  carries an error, as the values read by \<open>signIn\<close> and \<open>signUp\<close> do, the toast shown
  is the ``Signed out'' one and no destructive toast is issued.
\<close>

theorem signOut_reported_error_shows_success:
  "toasts_of (fst (signOut (Resolved \<lparr>error = Some (ProviderError ''network down'')\<rparr>)))
     = [\<lparr>title = ''Signed out'', description = ''You've been successfully signed out.'',
         variant = Default\<rparr>]
   \<and> snd (signOut (Resolved \<lparr>error = Some (ProviderError ''network down'')\<rparr>)) = Inr ()"
  by (simp add: signOut_def signOut_settled_def signOut_try_def operation_start_def)

text \<open>The promise returned by \<open>signOut\<close> never rejects; a rejected provider call is reported.\<close>

lemma signOut_never_raises: "snd (signOut out) = Inr ()"
  by (cases out) (simp_all add: signOut_def signOut_settled_def signOut_try_def)

lemma signOut_rejected:
  "toasts_of (fst (signOut (Rejected e)))
     = [\<lparr>title = ''Sign out failed'', description = message e, variant = Destructive\<rparr>]"
  by (simp add: signOut_def signOut_settled_def signOut_try_def operation_start_def)

section \<open>Writes after teardown\<close>

text \<open>
  C6, as stated, fails: \<open>mounted\<close> is a variable of the mount effect, and the
  continuation of \<open>signIn\<close> calls \<open>setIsLoading(false)\<close> without any check. A sign-in is
  started, the component is torn down, the provider answers: one setter call is issued
  after the teardown.
\<close>

theorem signIn_writes_after_teardown:
  "late_writes (run [CallSignIn ''a@example.org'' ''pw'', Unmount,
                     CallSettled 0 (Resolved \<lparr>error = None\<rparr>)]) = [SetIsLoading False]"
  by (simp add: model_defs alice_def alice_session_def premium_row_def)


lemma unmounted_checkSession_settled:
  "writes_of (fst (checkSession_settled False out)) = []"
  by (cases out) (simp_all add: checkSession_finally_def)

lemma unmounted_fetchPremiumStatus_settled:
  "writes_of (fst (fetchPremiumStatus_settled False out)) = []"
  by (cases out) simp_all

lemma unmounted_checkSession_resumed:
  "writes_of (checkSession_resumed False out) = []"
  by (cases out) (simp_all add: checkSession_resumed_def checkSession_finally_def)

lemma unmounted_onAuthStateChange_handler:
  "writes_of (fst (onAuthStateChange_handler False ev cs)) = []"
  by (simp add: onAuthStateChange_handler_def)

lemma unmounted_onAuthStateChange_resumed:
  "writes_of (onAuthStateChange_resumed False out) = []"
  by (cases out) (simp_all add: onAuthStateChange_resumed_def)

lemma quiet_start_fetch [simp]: "quiet (start_fetch a p sys) = quiet sys"
  by (simp add: start_fetch_def quiet_def split: option.splits)

lemma quiet_deliver:
  "quiet sys \<Longrightarrow> (\<not> mounted sys \<Longrightarrow> writes_of effs = []) \<Longrightarrow> quiet (deliver effs sys)"
  by (auto simp: quiet_def deliver_def)

lemma quiet_step:
  assumes "quiet sys" and "\<not> is_operation_event e"
  shows "quiet (step e sys)"
proof (cases e)
  case (GetSessionSettled out)
  have "quiet (deliver (fst (checkSession_settled (mounted sys) out))
                 (sys\<lparr>session_query := False\<rparr>))"
    using assms(1) by (intro quiet_deliver) (simp_all add: quiet_def unmounted_checkSession_settled)
  with assms(1) GetSessionSettled show ?thesis
    by (simp add: case_prod_beta)
next
  case (AuthStateChange ev cs)
  have "quiet (deliver (fst (onAuthStateChange_handler (mounted sys) ev cs)) sys)"
    using assms(1) by (intro quiet_deliver) (simp_all add: unmounted_onAuthStateChange_handler)
  with assms(1) AuthStateChange show ?thesis
    by (simp add: case_prod_beta)
next
  case (FetchSettled i out)
  have a: "quiet (deliver (checkSession_resumed (mounted sys) out)
                    (sys\<lparr>fetches := remove_at i (fetches sys)\<rparr>))"
    using assms(1) by (intro quiet_deliver) (simp_all add: quiet_def unmounted_checkSession_resumed)
  have b: "quiet (deliver (onAuthStateChange_resumed (mounted sys) out)
                    (sys\<lparr>fetches := remove_at i (fetches sys)\<rparr>))"
    using assms(1)
    by (intro quiet_deliver) (simp_all add: quiet_def unmounted_onAuthStateChange_resumed)
  from a b assms(1) FetchSettled show ?thesis
    by (simp split: awaiter.splits)
next
  case TimeoutFired
  with assms(1) show ?thesis
    by (auto simp: quiet_def deliver_def)
next
  case Unmount
  with assms(1) show ?thesis by (simp add: quiet_def)
next
  case (CallSignIn em pw)
  with assms(2) show ?thesis by simp
next
  case (CallSignUp em pw un)
  with assms(2) show ?thesis by simp
next
  case CallSignOut
  with assms(2) show ?thesis by simp
next
  case (CallSettled i out)
  with assms(2) show ?thesis by simp
qed

lemma quiet_fold_step:
  "quiet sys \<Longrightarrow> \<forall>e\<in>set evs. \<not> is_operation_event e \<Longrightarrow> quiet (fold step evs sys)"
  by (induction evs arbitrary: sys) (simp_all add: quiet_step)

text \<open>
  C6, amended. The continuations defined inside the mount effect (the initial session
  query, the entitlement query, the change-event handler, each also after its awaited
  entitlement query) issue no setter call once \<open>mounted\<close> is false, so a run without
  operations has no write after teardown; the timer callback has no check and is cleared by
  the teardown. The continuations of \<open>signIn\<close>, \<open>signUp\<close> and \<open>signOut\<close> always
  call \<open>setIsLoading(false)\<close>.
\<close>

theorem effect_continuations_check_mounted:
  "writes_of (fst (checkSession_settled False so)) = []
   \<and> writes_of (checkSession_resumed False fo) = []
   \<and> writes_of (fst (fetchPremiumStatus_settled False fo)) = []
   \<and> writes_of (fst (onAuthStateChange_handler False ev cs)) = []
   \<and> writes_of (onAuthStateChange_resumed False fo) = []
   \<and> writes_of (fst (signIn_settled ao)) = [SetIsLoading False]
   \<and> writes_of (fst (signUp_settled ao)) = [SetIsLoading False]
   \<and> writes_of (fst (signOut_settled ao)) = [SetIsLoading False]
   \<and> ((\<forall>e\<in>set evs. \<not> is_operation_event e) \<longrightarrow> late_writes (run evs) = [])"
proof -
  have "quiet mount" by (simp add: quiet_def mount_def)
  then have "(\<forall>e\<in>set evs. \<not> is_operation_event e) \<longrightarrow> quiet (run evs)"
    unfolding run_def by (simp add: quiet_fold_step)
  moreover have "writes_of (fst (signIn_settled ao)) = [SetIsLoading False]"
    by (simp add: signIn_settled_def signIn_try_def split: settled.splits option.splits)
  moreover have "writes_of (fst (signUp_settled ao)) = [SetIsLoading False]"
    by (simp add: signUp_settled_def signUp_try_def split: settled.splits option.splits)
  moreover have "writes_of (fst (signOut_settled ao)) = [SetIsLoading False]"
    by (simp add: signOut_settled_def signOut_try_def split: settled.splits option.splits)
  ultimately show ?thesis
    by (simp add: quiet_def unmounted_checkSession_settled unmounted_checkSession_resumed
          unmounted_fetchPremiumStatus_settled unmounted_onAuthStateChange_handler
          unmounted_onAuthStateChange_resumed)
qed

theorem effect_continuations_check_mounted_witness:
  "\<not> is_operation_event (GetSessionSettled (Resolved (Some alice_session)))
   \<and> \<not> is_operation_event Unmount
   \<and> \<not> is_operation_event (FetchSettled 0 (Resolved (Some premium_row)))
   \<and> late_writes (run [GetSessionSettled (Resolved (Some alice_session)), Unmount,
                       FetchSettled 0 (Resolved (Some premium_row))]) = []"
  using effect_continuations_check_mounted
    [of _ _ _ _ _ "[GetSessionSettled (Resolved (Some alice_session)), Unmount,
              FetchSettled 0 (Resolved (Some premium_row))]"]
  by simp


lemma same_identity_operation_start:
  "same_identity st (commit (writes_of operation_start) st)"
  by (simp add: same_identity_def commit_def operation_start_def)

lemma same_identity_signIn_settled:
  "same_identity st (commit (writes_of (fst (signIn_settled out))) st)"
  by (simp add: same_identity_def commit_def signIn_settled_def signIn_try_def
        split: settled.splits option.splits)

lemma same_identity_signUp_settled:
  "same_identity st (commit (writes_of (fst (signUp_settled out))) st)"
  by (simp add: same_identity_def commit_def signUp_settled_def signUp_try_def
        split: settled.splits option.splits)

lemma same_identity_signOut_settled:
  "same_identity st (commit (writes_of (fst (signOut_settled out))) st)"
  by (simp add: same_identity_def commit_def signOut_settled_def signOut_try_def
        split: settled.splits option.splits)

lemma same_identity_refl: "same_identity st st"
  by (simp add: same_identity_def)

lemma same_identity_trans:
  "same_identity a b \<Longrightarrow> same_identity b c \<Longrightarrow> same_identity a c"
  by (simp add: same_identity_def)

lemma same_identity_deliver:
  "same_identity (auth sys) (commit (writes_of effs) (auth sys))
     \<Longrightarrow> same_identity (auth sys) (auth (deliver effs sys))"
  by (simp add: auth_deliver same_identity_refl)

lemma same_identity_operation_event:
  assumes "is_operation_event e"
  shows "same_identity (auth sys) (auth (step e sys))"
proof (cases e)
  case (CallSettled i out)
  then show ?thesis
    using same_identity_signIn_settled [of "auth sys" out]
      same_identity_signUp_settled [of "auth sys" out]
      same_identity_signOut_settled [of "auth sys" out]
    by (simp add: auth_deliver same_identity_refl split: operation.splits)
qed (use assms in \<open>simp_all add: auth_deliver same_identity_refl same_identity_operation_start\<close>)

section \<open>What the operations leave alone\<close>

text \<open>
  C7, amended. No execution of \<open>signIn\<close>, \<open>signUp\<close> or \<open>signOut\<close>, successful or
  not, changes \<open>user\<close>, \<open>session\<close> or \<open>isPremium\<close>, as a whole or in either of its
  two parts. A step that changes one of these fields is the initial session query, a
  change event, an entitlement query answering, or the timer.
\<close>

theorem operations_leave_identity_fields:
  "same_identity st (commit (writes_of (fst (signIn em pw out))) st)
   \<and> same_identity st (commit (writes_of (fst (signUp em pw un out))) st)
   \<and> same_identity st (commit (writes_of (fst (signOut out))) st)
   \<and> (is_operation_event e \<longrightarrow> same_identity (auth sys) (auth (step e sys)))
   \<and> (\<not> same_identity (auth sys) (auth (step e sys)) \<longrightarrow>
        (\<exists>so. e = GetSessionSettled so) \<or> (\<exists>ev cs. e = AuthStateChange ev cs)
        \<or> (\<exists>i fo. e = FetchSettled i fo) \<or> e = TimeoutFired)"
proof -
  have a: "same_identity st (commit (writes_of (fst (signIn em pw out))) st)"
    unfolding signIn_def fst_conv writes_of_append commit_append
    by (rule same_identity_trans [OF same_identity_operation_start same_identity_signIn_settled])
  have b: "same_identity st (commit (writes_of (fst (signUp em pw un out))) st)"
    unfolding signUp_def fst_conv writes_of_append commit_append
    by (rule same_identity_trans [OF same_identity_operation_start same_identity_signUp_settled])
  have c: "same_identity st (commit (writes_of (fst (signOut out))) st)"
    unfolding signOut_def fst_conv writes_of_append commit_append
    by (rule same_identity_trans [OF same_identity_operation_start same_identity_signOut_settled])
  have d: "is_operation_event e \<longrightarrow> same_identity (auth sys) (auth (step e sys))"
    by (simp add: same_identity_operation_event)
  have e: "\<not> same_identity (auth sys) (auth (step e sys)) \<longrightarrow>
        (\<exists>so. e = GetSessionSettled so) \<or> (\<exists>ev cs. e = AuthStateChange ev cs)
        \<or> (\<exists>i fo. e = FetchSettled i fo) \<or> e = TimeoutFired"
    using d by (cases e) (simp_all add: same_identity_refl)
  from a b c d e show ?thesis by blast
qed

theorem operations_leave_identity_fields_witness:
  "is_operation_event (CallSettled 0 (Resolved \<lparr>error = None\<rparr>))
   \<and> same_identity
        (auth (run [AuthStateChange ''SIGNED_IN'' (Some alice_session), CallSignOut]))
        (auth (step (CallSettled 0 (Resolved \<lparr>error = None\<rparr>))
           (run [AuthStateChange ''SIGNED_IN'' (Some alice_session), CallSignOut])))
   \<and> user (auth (run [AuthStateChange ''SIGNED_IN'' (Some alice_session), CallSignOut]))
       = Some alice
   \<and> \<not> same_identity
        (auth (run [AuthStateChange ''SIGNED_IN'' (Some alice_session)]))
        (auth (step TimeoutFired (run [AuthStateChange ''SIGNED_IN'' (Some alice_session)])))
   \<and> ((\<exists>so. TimeoutFired = GetSessionSettled so)
        \<or> (\<exists>ev cs. TimeoutFired = AuthStateChange ev cs)
        \<or> (\<exists>i fo. TimeoutFired = FetchSettled i fo) \<or> TimeoutFired = TimeoutFired)"
proof -
  have n: "\<not> same_identity
        (auth (run [AuthStateChange ''SIGNED_IN'' (Some alice_session)]))
        (auth (step TimeoutFired (run [AuthStateChange ''SIGNED_IN'' (Some alice_session)])))"
    by (simp add: model_defs same_identity_def alice_def alice_session_def)
  have u: "user (auth (run [AuthStateChange ''SIGNED_IN'' (Some alice_session), CallSignOut]))
       = Some alice"
    by (simp add: model_defs alice_def alice_session_def premium_row_def)
  show ?thesis
    using operations_leave_identity_fields
      [of _ _ _ _ _ "CallSettled 0 (Resolved \<lparr>error = None\<rparr>)"
          "run [AuthStateChange ''SIGNED_IN'' (Some alice_session), CallSignOut]"]
      operations_leave_identity_fields
      [of _ _ _ _ _ TimeoutFired "run [AuthStateChange ''SIGNED_IN'' (Some alice_session)]"]
      u n
    by simp
qed

text \<open>
  C7, as stated, fails in its last clause: the change-event handler is not the only
  writer of these fields. The initial session query sets \<open>user\<close>, and the timer clears
  \<open>session\<close>.
\<close>

theorem initial_query_sets_user:
  "user (auth (run [])) = None
   \<and> user (auth (run [GetSessionSettled (Resolved (Some alice_session))])) = Some alice
   \<and> session (auth (run [AuthStateChange ''SIGNED_IN'' (Some alice_session)])) = Some alice_session
   \<and> session (auth (run [AuthStateChange ''SIGNED_IN'' (Some alice_session), TimeoutFired])) = None"
  by (simp add: model_defs alice_def alice_session_def premium_row_def)


section \<open>The entitlement query\<close>

text \<open>
  C8, amended. While the component is mounted, a query that resolves sets \<open>isPremium\<close>
  to true exactly when a row with a true flag came back (no row, or a row without the flag,
  gives false). A query that rejects is logged to the console and nothing else happens:
  \<open>isPremium\<close> keeps the value it had. After teardown nothing is written. In every case
  no toast is shown and \<open>fetchPremiumStatus\<close> itself returns without throwing.
\<close>

theorem fetchPremiumStatus_contract:
  "isPremium (commit (writes_of (fst (fetchPremiumStatus_settled True (Resolved data)))) st)
     = (\<exists>row. data = Some row \<and> is_premium row = Some True)
   \<and> commit (writes_of (fst (fetchPremiumStatus_settled m (Rejected e)))) st = st
   \<and> fst (fetchPremiumStatus_settled m (Rejected e))
       = [Console ''Error fetching subscription data:'']
   \<and> commit (writes_of (fst (fetchPremiumStatus_settled False out))) st = st
   \<and> toasts_of (fst (fetchPremiumStatus_settled m out)) = []
   \<and> snd (fetchPremiumStatus_settled m out) = Inr ()"
proof -
  have "premium_flag data = (\<exists>row. data = Some row \<and> is_premium row = Some True)"
    by (auto simp: premium_flag_def split: option.splits)
  moreover have "commit (writes_of (fst (fetchPremiumStatus_settled False out))) st = st"
    by (cases out) (simp_all add: commit_def)
  moreover have "toasts_of (fst (fetchPremiumStatus_settled m out)) = []"
    by (cases out) simp_all
  moreover have "snd (fetchPremiumStatus_settled m out) = Inr ()"
    by (cases out) simp_all
  ultimately show ?thesis
    by (simp add: commit_def)
qed

text \<open>
  C8, as stated, fails for a rejected query: a premium user is signed in, the session is
  refreshed, the second entitlement query rejects, and \<open>isPremium\<close> is still true.
\<close>

theorem rejected_fetch_keeps_premium:
  "isPremium (auth (run [AuthStateChange ''SIGNED_IN'' (Some alice_session),
                         FetchSettled 0 (Resolved (Some premium_row)),
                         AuthStateChange ''TOKEN_REFRESHED'' (Some alice_session),
                         FetchSettled 0 (Rejected (ProviderError ''Failed to fetch''))])) = True"
  by (simp add: model_defs alice_def alice_session_def premium_row_def)

section \<open>useAuth\<close>

text \<open>
  C9. Outside an \<open>AuthProvider\<close>, \<open>useAuth\<close> throws the error ``useAuth must be used
  within an AuthProvider''; inside, it returns the provider's value: the four state fields
  and the three operations.
\<close>

theorem useAuth_contract:
  "useAuth OutsideProvider = Inl (Error ''useAuth must be used within an AuthProvider'')
   \<and> useAuth (InsideProvider st)
       = Inr \<lparr>ctx_user = user st, ctx_session = session st, ctx_isLoading = isLoading st,
              ctx_signIn = signIn, ctx_signUp = signUp, ctx_signOut = signOut,
              ctx_isPremium = isPremium st\<rparr>"
  by (simp add: useAuth_def useContext_def provider_value_def)

lemma user_kept_checkSession_settled:
  "user st \<noteq> None \<Longrightarrow> user (commit (writes_of (fst (checkSession_settled m out))) st) \<noteq> None"
  by (cases out) (auto simp: commit_def checkSession_finally_def split: option.splits)

lemma session_kept_checkSession_settled:
  "session st \<noteq> None
     \<Longrightarrow> session (commit (writes_of (fst (checkSession_settled m out))) st) \<noteq> None"
  by (cases out)
     (auto simp: commit_def checkSession_finally_def dest: optional_user_SomeD
           split: option.splits)

lemma checkSession_resumed_keeps:
  "user (commit (writes_of (checkSession_resumed m fo)) st) = user st
   \<and> session (commit (writes_of (checkSession_resumed m fo)) st) = session st"
  by (cases fo) (simp_all add: commit_def checkSession_resumed_def checkSession_finally_def)

section \<open>The initial session query\<close>

text \<open>
  C10. When \<open>getSession\<close> resolves with no session, \<open>checkSession\<close> calls no setter
  except \<open>setIsLoading(false)\<close> (and not even that after teardown) and starts no
  entitlement query: \<open>user\<close>, \<open>session\<close> and \<open>isPremium\<close> keep their values and,
  while mounted, \<open>isLoading\<close> becomes false. Whatever \<open>getSession\<close> answers, no part
  of \<open>checkSession\<close> turns a present \<open>user\<close> or \<open>session\<close> into null.
\<close>

theorem initial_query_without_session:
  "writes_of (fst (checkSession_settled m (Resolved None)))
     = (if m then [SetIsLoading False] else [])
   \<and> snd (checkSession_settled m (Resolved None)) = None
   \<and> same_identity (auth sys) (auth (step (GetSessionSettled (Resolved None)) sys))
   \<and> (session_query sys \<and> mounted sys \<longrightarrow>
        isLoading (auth (step (GetSessionSettled (Resolved None)) sys)) = False)
   \<and> (user (auth sys) \<noteq> None \<longrightarrow> user (auth (step (GetSessionSettled out) sys)) \<noteq> None)
   \<and> (session (auth sys) \<noteq> None \<longrightarrow>
        session (auth (step (GetSessionSettled out) sys)) \<noteq> None)
   \<and> user (commit (writes_of (checkSession_resumed m fo)) st) = user st
   \<and> session (commit (writes_of (checkSession_resumed m fo)) st) = session st"
proof -
  have a: "writes_of (fst (checkSession_settled m (Resolved None)))
     = (if m then [SetIsLoading False] else [])"
    by (simp add: optional_user_def checkSession_finally_def)
  have b: "snd (checkSession_settled m (Resolved None)) = None"
    by (simp add: optional_user_def)
  have c: "same_identity (auth sys) (auth (step (GetSessionSettled (Resolved None)) sys))"
    by (simp add: optional_user_def checkSession_finally_def auth_deliver commit_def
          same_identity_def start_fetch_def)
  have d: "session_query sys \<and> mounted sys \<longrightarrow>
        isLoading (auth (step (GetSessionSettled (Resolved None)) sys)) = False"
    by (simp add: optional_user_def checkSession_finally_def auth_deliver commit_def
          start_fetch_def)
  have e: "user (auth sys) \<noteq> None \<longrightarrow> user (auth (step (GetSessionSettled out) sys)) \<noteq> None"
    using user_kept_checkSession_settled [of "auth sys" "mounted sys" out]
    by (cases "mounted sys") (simp_all add: auth_deliver case_prod_beta)
  have f: "session (auth sys) \<noteq> None \<longrightarrow>
        session (auth (step (GetSessionSettled out) sys)) \<noteq> None"
    using session_kept_checkSession_settled [of "auth sys" "mounted sys" out]
    by (cases "mounted sys") (simp_all add: auth_deliver case_prod_beta)
  from a b c d e f checkSession_resumed_keeps [of m fo st] show ?thesis
    by blast
qed

theorem initial_query_without_session_witness:
  "session_query (run [AuthStateChange ''SIGNED_IN'' (Some alice_session)])
   \<and> mounted (run [AuthStateChange ''SIGNED_IN'' (Some alice_session)])
   \<and> user (auth (run [AuthStateChange ''SIGNED_IN'' (Some alice_session)])) \<noteq> None
   \<and> session (auth (run [AuthStateChange ''SIGNED_IN'' (Some alice_session)])) \<noteq> None
   \<and> isLoading (auth (step (GetSessionSettled (Resolved None))
         (run [AuthStateChange ''SIGNED_IN'' (Some alice_session)]))) = False
   \<and> user (auth (step (GetSessionSettled (Resolved None))
         (run [AuthStateChange ''SIGNED_IN'' (Some alice_session)]))) \<noteq> None
   \<and> session (auth (step (GetSessionSettled (Resolved None))
         (run [AuthStateChange ''SIGNED_IN'' (Some alice_session)]))) \<noteq> None"
proof -
  have h: "session_query (run [AuthStateChange ''SIGNED_IN'' (Some alice_session)])
   \<and> mounted (run [AuthStateChange ''SIGNED_IN'' (Some alice_session)])
   \<and> user (auth (run [AuthStateChange ''SIGNED_IN'' (Some alice_session)])) \<noteq> None
   \<and> session (auth (run [AuthStateChange ''SIGNED_IN'' (Some alice_session)])) \<noteq> None"
    by (simp add: model_defs alice_def alice_session_def premium_row_def)
  show ?thesis
    using h initial_query_without_session
      [of _ "run [AuthStateChange ''SIGNED_IN'' (Some alice_session)]" "Resolved None"]
    by blast
qed

end
